theory Spec2Isabelle
  imports Complex_Main "HOL-Library.AList"
begin

section \<open>JavaScript values and string operations used by the serializer\<close>

text \<open>
  The request serializer \<^verbatim>\<open>CustomESRequestSerializer\<close> (the variant with the hard-coded
  \<^verbatim>\<open>aggFieldsMapping\<close>) builds a plain JavaScript object. Objects are association lists in
  property creation order, so that the presence of a key can be stated; arrays are lists.
  A string is a list of code units below 256.
\<close>

subsection \<open>Numbers\<close>

text \<open>
  A JavaScript number is an IEEE 754 double: not-a-number, an infinity, negative zero, or a
  finite value, held as a rational (\<open>Finite 0\<close> is positive zero). Arithmetic computes the
  exact result and rounds it to the nearest double, ties to the even significand: 53
  significant bits, the least exponent -1074, overflow to infinity from \<open>2 ^ 1024\<close> on.
\<close>

datatype number = NaN | PosInfinity | NegInfinity | NegZero | Finite rat

text \<open>The number of binary digits of a positive integer, and the binary exponent of a positive rational.\<close>

function bit_length :: "int \<Rightarrow> int" where
  "bit_length n = (if n \<le> 0 then 0 else 1 + bit_length (n div 2))"
  by pat_completeness auto
termination
  by (relation "measure nat") auto

declare bit_length.simps [simp del]

definition ilog2 :: "rat \<Rightarrow> int" where
  "ilog2 a =
     (if 1 \<le> a then bit_length \<lfloor>a\<rfloor> - 1
      else - bit_length (\<lceil>1 / a\<rceil> - 1))"

definition pow2 :: "int \<Rightarrow> rat" where
  "pow2 k = (if 0 \<le> k then 2 ^ nat k else 1 / 2 ^ nat (- k))"

definition round_half_even :: "rat \<Rightarrow> int" where
  "round_half_even x =
     (let f = \<lfloor>x\<rfloor>; d = x - of_int f
      in if d < 1 / 2 then f else if 1 / 2 < d then f + 1 else if even f then f else f + 1)"

definition round64 :: "rat \<Rightarrow> number" where
  "round64 r =
     (if r = 0 then Finite 0
      else
        let a = \<bar>r\<bar>;
            e = max (ilog2 a) (- 1022);
            q = pow2 (e - 52);
            v = of_int (round_half_even (a / q)) * q
        in if pow2 1024 \<le> v then (if r < 0 then NegInfinity else PosInfinity)
           else if v = 0 then (if r < 0 then NegZero else Finite 0)
           else Finite (if r < 0 then - v else v))"

text \<open>The comparison \<^verbatim>\<open>x > 0\<close>, subtraction and multiplication of two numbers.\<close>

fun is_neg :: "number \<Rightarrow> bool" where
  "is_neg NegInfinity = True"
| "is_neg NegZero = True"
| "is_neg (Finite r) = (r < 0)"
| "is_neg _ = False"

fun is_zero :: "number \<Rightarrow> bool" where
  "is_zero NegZero = True"
| "is_zero (Finite r) = (r = 0)"
| "is_zero _ = False"

fun is_infinite :: "number \<Rightarrow> bool" where
  "is_infinite PosInfinity = True"
| "is_infinite NegInfinity = True"
| "is_infinite _ = False"

fun num_value :: "number \<Rightarrow> rat" where
  "num_value (Finite r) = r"
| "num_value _ = 0"

fun js_gt0 :: "number \<Rightarrow> bool" where
  "js_gt0 (Finite r) = (0 < r)"
| "js_gt0 PosInfinity = True"
| "js_gt0 _ = False"

definition js_sub :: "number \<Rightarrow> number \<Rightarrow> number" where
  "js_sub x y =
     (if x = NaN \<or> y = NaN then NaN
      else if is_infinite x \<and> is_infinite y then (if is_neg x = is_neg y then NaN else x)
      else if is_infinite x then x
      else if is_infinite y then (if is_neg y then PosInfinity else NegInfinity)
      else if num_value x - num_value y = 0
        then (if x = NegZero \<and> y = Finite 0 then NegZero else Finite 0)
      else round64 (num_value x - num_value y))"

definition js_mul :: "number \<Rightarrow> number \<Rightarrow> number" where
  "js_mul x y =
     (if x = NaN \<or> y = NaN then NaN
      else if (is_infinite x \<and> is_zero y) \<or> (is_zero x \<and> is_infinite y) then NaN
      else if is_infinite x \<or> is_infinite y
        then (if is_neg x \<noteq> is_neg y then NegInfinity else PosInfinity)
      else if is_zero x \<or> is_zero y
        then (if is_neg x \<noteq> is_neg y then NegZero else Finite 0)
      else round64 (num_value x * num_value y))"

subsection \<open>Values\<close>

datatype json =
    JUndefined
  | JNum number
  | JStr string
  | JArr "json list"
  | JObj "(string \<times> json) list"

datatype error = TypeError

abbreviation quot :: char where
  "quot \<equiv> CHR 0x22"

text \<open>Property read \<^verbatim>\<open>o[k]\<close> on an object of the output (own properties only).\<close>

fun get :: "string \<Rightarrow> json \<Rightarrow> json option" where
  "get k (JObj kvs) = map_of kvs k"
| "get k _ = None"

fun has_key :: "string \<Rightarrow> json \<Rightarrow> bool" where
  "has_key k (JObj kvs) = (k \<in> fst ` set kvs)"
| "has_key k _ = False"

text \<open>lodash \<^verbatim>\<open>isEmpty\<close>: a string, array or object without elements; every other value is empty.\<close>

fun isEmpty :: "json \<Rightarrow> bool" where
  "isEmpty (JStr s) = (s = [])"
| "isEmpty (JArr xs) = (xs = [])"
| "isEmpty (JObj kvs) = (kvs = [])"
| "isEmpty _ = True"

definition startsWith :: "string \<Rightarrow> string \<Rightarrow> bool" where
  "startsWith s p = (take (length p) s = p)"

definition endsWith :: "string \<Rightarrow> string \<Rightarrow> bool" where
  "endsWith s p = (length p \<le> length s \<and> drop (length s - length p) s = p)"

text \<open>Index of the first occurrence of a pattern, as \<^verbatim>\<open>String.prototype.indexOf\<close> finds it.\<close>

fun find_first :: "string \<Rightarrow> string \<Rightarrow> nat option" where
  "find_first pat [] = (if pat = [] then Some 0 else None)"
| "find_first pat (x # xs) =
     (if startsWith (x # xs) pat then Some 0 else map_option Suc (find_first pat xs))"

definition str_includes :: "string \<Rightarrow> string \<Rightarrow> bool" where
  "str_includes s pat = (find_first pat s \<noteq> None)"

text \<open>
  \<^verbatim>\<open>s.replace(pat, repl)\<close> with a string pattern replaces the first occurrence only, and
  expands in the replacement the patterns \<^verbatim>\<open>$$\<close>, \<^verbatim>\<open>$&\<close>, \<^verbatim>\<open>$`\<close> and \<^verbatim>\<open>$'\<close>
  (there are no captures, so \<^verbatim>\<open>$1\<close> and \<^verbatim>\<open>$<\<close> stay as they are).
\<close>

fun get_substitution :: "string \<Rightarrow> string \<Rightarrow> string \<Rightarrow> string \<Rightarrow> string" where
  "get_substitution m b a (c # d # r) =
     (if c = CHR ''$'' \<and> d = CHR ''$'' then CHR ''$'' # get_substitution m b a r
      else if c = CHR ''$'' \<and> d = CHR ''&'' then m @ get_substitution m b a r
      else if c = CHR ''$'' \<and> d = CHR 0x60 then b @ get_substitution m b a r
      else if c = CHR ''$'' \<and> d = CHR 0x27 then a @ get_substitution m b a r
      else c # get_substitution m b a (d # r))"
| "get_substitution m b a r = r"

definition js_replace :: "string \<Rightarrow> string \<Rightarrow> string \<Rightarrow> string" where
  "js_replace s pat repl =
     (case find_first pat s of
        None \<Rightarrow> s
      | Some i \<Rightarrow>
          take i s
          @ get_substitution pat (take i s) (drop (i + length pat) s) repl
          @ drop (i + length pat) s)"

text \<open>\<^verbatim>\<open>s.split(c)\<close> for a one-character separator: never the empty array.\<close>

fun split_on :: "char \<Rightarrow> string \<Rightarrow> string list" where
  "split_on c [] = [[]]"
| "split_on c (x # xs) =
     (if x = c then [] # split_on c xs
      else (case split_on c xs of
              w # ws \<Rightarrow> (x # w) # ws
            | [] \<Rightarrow> [[x]]))"

fun js_join :: "string \<Rightarrow> string list \<Rightarrow> string" where
  "js_join sep [] = []"
| "js_join sep [x] = x"
| "js_join sep (x # y # ys) = x @ sep @ js_join sep (y # ys)"

text \<open>
  \<^verbatim>\<open>String.prototype.trim\<close> strips white space and line terminators at both ends (the ones
  below 256: tab, line feed, vertical tab, form feed, carriage return, space, no-break space).
\<close>

definition is_whitespace :: "char \<Rightarrow> bool" where
  "is_whitespace c =
     (c \<in> set [CHR 0x09, CHR 0x0A, CHR 0x0B, CHR 0x0C, CHR 0x0D, CHR 0x20, CHR 0xA0])"

definition js_trim :: "string \<Rightarrow> string" where
  "js_trim s = rev (dropWhile is_whitespace (rev (dropWhile is_whitespace s)))"

text \<open>lodash \<^verbatim>\<open>trim(string, chars)\<close> strips the given character at both ends.\<close>

definition trim :: "string \<Rightarrow> char \<Rightarrow> string" where
  "trim s c = rev (dropWhile (\<lambda>x. x = c) (rev (dropWhile (\<lambda>x. x = c) s)))"

section \<open>The tokenizer of the query string\<close>

text \<open>The five arrays that \<^verbatim>\<open>serialize\<close> fills word by word.\<close>

record buckets =
  qs_tailored_should_notexact :: "string list"
  qs_tailored_should_exact :: "string list"
  qs_tailored_must_notexact :: "string list"
  qs_tailored_must_exact :: "string list"
  qs_tailored_mustNot_exact :: "string list"

definition no_buckets :: buckets where
  "no_buckets =
     \<lparr>qs_tailored_should_notexact = [], qs_tailored_should_exact = [],
      qs_tailored_must_notexact = [], qs_tailored_must_exact = [],
      qs_tailored_mustNot_exact = []\<rparr>"

definition force_fuzzy :: bool where
  "force_fuzzy = True"

definition remove_orphan_leading_or_trailing_quotmarks :: "string \<Rightarrow> string" where
  "remove_orphan_leading_or_trailing_quotmarks word =
     (let word_without_plus_or_minus = trim (trim word (CHR ''+'')) (CHR ''-'') in
      if \<not> (startsWith word_without_plus_or_minus [quot]
             \<and> endsWith word_without_plus_or_minus [quot])
         \<and> \<not> (\<not> startsWith word_without_plus_or_minus [quot]
                \<and> \<not> endsWith word_without_plus_or_minus [quot])
      then js_replace word [quot] []
      else word)"

text \<open>
  \<^verbatim>\<open>_removeQuotationMarks\<close> calls \<^verbatim>\<open>word.replace\<close> twice and drops both results;
  strings are immutable, so it returns its argument.
\<close>

definition removeQuotationMarks :: "string \<Rightarrow> string" where
  "removeQuotationMarks word =
     (let dropped1 = js_replace word [quot] []; dropped2 = js_replace word [CHR 0x27] []
      in word)"

definition make_fuzzy_and_enrich_with_word_parts :: "string \<Rightarrow> buckets \<Rightarrow> buckets" where
  "make_fuzzy_and_enrich_with_word_parts word b =
     (if startsWith word ''-'' then
        b\<lparr>qs_tailored_mustNot_exact :=
            qs_tailored_mustNot_exact b @ [removeQuotationMarks (drop 1 word)]\<rparr>
      else if startsWith word ''+'' then
        (if str_includes word [quot] \<or> str_includes word ''*'' \<or> str_includes word ''?'' then
           b\<lparr>qs_tailored_must_exact := qs_tailored_must_exact b @ [drop 1 word]\<rparr>
         else
           b\<lparr>qs_tailored_must_notexact := qs_tailored_must_notexact b @ [drop 1 word]\<rparr>)
      else if str_includes word ''*'' \<or> str_includes word ''?'' then
        b\<lparr>qs_tailored_should_exact :=
            qs_tailored_should_exact b @ [removeQuotationMarks word]\<rparr>
      else if str_includes word [quot] then
        b\<lparr>qs_tailored_should_exact := qs_tailored_should_exact b @ [word]\<rparr>
      else
        (let wordpartlist = split_on (CHR ''-'') word;
             word_new =
               (if length wordpartlist > 1 then
                  js_join '' ''
                    (map (\<lambda>el. if force_fuzzy then el @ '' '' @ el @ ''~'' else el)
                       (wordpartlist @ [word]))
                else (if force_fuzzy then word @ '' '' @ word @ ''~'' else word))
         in b\<lparr>qs_tailored_should_notexact := qs_tailored_should_notexact b @ [word_new]\<rparr>))"

text \<open>
  The block of \<^verbatim>\<open>serialize\<close> that splits the trimmed query string at spaces, drops empty
  words and lone quotation marks, and classifies each remaining word.
\<close>

definition query_words :: "string \<Rightarrow> string list" where
  "query_words queryString =
     filter (\<lambda>word. word \<noteq> [] \<and> word \<noteq> [quot]) (split_on (CHR '' '') (js_trim queryString))"

definition tokenize_words :: "string list \<Rightarrow> buckets" where
  "tokenize_words words =
     fold (\<lambda>word b.
             make_fuzzy_and_enrich_with_word_parts
               (remove_orphan_leading_or_trailing_quotmarks word) b)
       words no_buckets"

section \<open>Objects with inherited properties\<close>

text \<open>
  \<^verbatim>\<open>getFilters\<close> collects its result in an object literal \<^verbatim>\<open>{}\<close>, whose prototype is
  \<^verbatim>\<open>Object.prototype\<close>. The operator \<^verbatim>\<open>in\<close> also finds the properties inherited from
  there, listed below. An object is modelled by its own properties, in creation order.
\<close>

definition object_prototype_keys :: "string list" where
  "object_prototype_keys =
     [''constructor'', ''__defineGetter__'', ''__defineSetter__'', ''hasOwnProperty'',
      ''__lookupGetter__'', ''__lookupSetter__'', ''isPrototypeOf'',
      ''propertyIsEnumerable'', ''toString'', ''valueOf'', ''__proto__'',
      ''toLocaleString'']"

definition js_in :: "string \<Rightarrow> (string \<times> 'v) list \<Rightarrow> bool" where
  "js_in k obj = (k \<in> fst ` set obj \<or> k \<in> set object_prototype_keys)"

text \<open>
  \<^verbatim>\<open>Object.keys\<close> lists the keys that are array indices first, in ascending numeric order,
  then the other keys in creation order.
\<close>

definition is_digit :: "char \<Rightarrow> bool" where
  "is_digit c = (48 \<le> (of_char c :: nat) \<and> (of_char c :: nat) \<le> 57)"

definition digits_val :: "string \<Rightarrow> nat" where
  "digits_val s = foldl (\<lambda>n c. 10 * n + (of_char c - 48)) 0 s"

definition is_array_index :: "string \<Rightarrow> bool" where
  "is_array_index s =
     (case s of
        [] \<Rightarrow> False
      | c # cs \<Rightarrow>
          list_all is_digit s \<and> (c \<noteq> CHR ''0'' \<or> cs = []) \<and> digits_val s < 4294967295)"

definition own_keys :: "(string \<times> 'v) list \<Rightarrow> string list" where
  "own_keys obj =
     sort_key digits_val (filter is_array_index (map fst obj))
     @ filter (\<lambda>k. \<not> is_array_index k) (map fst obj)"

section \<open>getFilters: from filter chains to an object of value lists\<close>

text \<open>
  A filter chain is the array \<^verbatim>\<open>[aggName, value]\<close> or \<^verbatim>\<open>[aggName, value, child]\<close>;
  the child is read when the array has length 3.
\<close>

datatype filterchain = Chain string json "filterchain option"

text \<open>
  When \<^verbatim>\<open>aggName in aggValueObj\<close> holds the code pushes onto \<^verbatim>\<open>aggValueObj[aggName]\<close>.
  For an inherited name that value is a function or \<^verbatim>\<open>Object.prototype\<close> itself, which
  has no \<^verbatim>\<open>push\<close>: the call throws a TypeError.
\<close>

fun getChildFilter ::
  "filterchain \<Rightarrow> (string \<times> json list) list \<Rightarrow> error + (string \<times> json list) list" where
  "getChildFilter (Chain aggName fieldValue child) aggValueObj =
     (case (if js_in aggName aggValueObj then
              (case map_of aggValueObj aggName of
                 Some vs \<Rightarrow> Inr (AList.update aggName (vs @ [fieldValue]) aggValueObj)
               | None \<Rightarrow> Inl TypeError)
            else Inr (aggValueObj @ [(aggName, [fieldValue])])) of
        Inl e \<Rightarrow> Inl e
      | Inr aggValueObj' \<Rightarrow>
          (case child of
             None \<Rightarrow> Inr aggValueObj'
           | Some c \<Rightarrow> getChildFilter c aggValueObj'))"

fun forEach_getChildFilter ::
  "filterchain list \<Rightarrow> (string \<times> json list) list \<Rightarrow> error + (string \<times> json list) list" where
  "forEach_getChildFilter [] aggValueObj = Inr aggValueObj"
| "forEach_getChildFilter (filterObj # rest) aggValueObj =
     (case getChildFilter filterObj aggValueObj of
        Inl e \<Rightarrow> Inl e
      | Inr aggValueObj' \<Rightarrow> forEach_getChildFilter rest aggValueObj')"

definition getFilters :: "filterchain list \<Rightarrow> error + (string \<times> json list) list" where
  "getFilters filters = forEach_getChildFilter filters []"

text \<open>
  The reading of the specification: the pairs of a chain in visiting order, and the values
  recorded for one facet name, duplicates kept.
\<close>

fun chain_pairs :: "filterchain \<Rightarrow> (string \<times> json) list" where
  "chain_pairs (Chain aggName fieldValue child) =
     (aggName, fieldValue) # (case child of None \<Rightarrow> [] | Some c \<Rightarrow> chain_pairs c)"

definition flatten_values :: "filterchain list \<Rightarrow> string \<Rightarrow> json list" where
  "flatten_values filters name =
     map snd (filter (\<lambda>p. fst p = name) (concat (map chain_pairs filters)))"

section \<open>serialize: from the query state to the request body\<close>

text \<open>
  The serializer is constructed from \<^verbatim>\<open>config.reviewstatemapping\<close> (an object) and
  \<^verbatim>\<open>config.simpleFields\<close> (an array of strings). The arrays \<^verbatim>\<open>listFilterFields\<close> and
  \<^verbatim>\<open>nestedFilterFields\<close> are imported from \<^verbatim>\<open>constants.js\<close>; they are parameters here.
\<close>

record config =
  reviewstatemapping :: "(string \<times> json) list"
  simpleFields :: "string list"

record constants =
  listFilterFields :: "string list"
  nestedFilterFields :: "string list"

record stateQuery =
  queryString :: string
  sortBy :: string
  sortOrder :: string
  page :: number
  size' :: number
  filters :: "filterchain list"

subsection \<open>The query and highlight block\<close>

definition simpleFields_exact :: "string list \<Rightarrow> string list" where
  "simpleFields_exact flds =
     map (\<lambda>fld.
            let fieldname = (case split_on (CHR ''^'') fld of x # _ \<Rightarrow> x | [] \<Rightarrow> [])
            in js_replace fld fieldname (fieldname @ ''.exact''))
       flds"

definition query_string :: "string list \<Rightarrow> string list \<Rightarrow> json" where
  "query_string bucket flds =
     JObj [(''query_string'',
            JObj [(''query'', JStr (js_join '' '' bucket)),
                  (''fields'', JArr (map JStr flds))])]"

definition shouldList :: "config \<Rightarrow> buckets \<Rightarrow> json list" where
  "shouldList cfg b =
     (if length (qs_tailored_should_notexact b) > 0
      then [query_string (qs_tailored_should_notexact b) (simpleFields cfg)] else [])
     @ (if length (qs_tailored_should_exact b) > 0
        then [query_string (qs_tailored_should_exact b) (simpleFields_exact (simpleFields cfg))]
        else [])"

definition mustList :: "config \<Rightarrow> buckets \<Rightarrow> json list" where
  "mustList cfg b =
     (if length (qs_tailored_must_notexact b) > 0
      then [query_string (qs_tailored_must_notexact b) (simpleFields cfg)] else [])
     @ (if length (qs_tailored_must_exact b) > 0
        then [query_string (qs_tailored_must_exact b) (simpleFields_exact (simpleFields cfg))]
        else [])"

definition must_notList :: "config \<Rightarrow> buckets \<Rightarrow> json list" where
  "must_notList cfg b =
     (if length (qs_tailored_mustNot_exact b) > 0
      then [query_string (qs_tailored_mustNot_exact b) (simpleFields_exact (simpleFields cfg))]
      else [])"

definition bool_query :: "config \<Rightarrow> buckets \<Rightarrow> json" where
  "bool_query cfg b =
     JObj [(''bool'',
            JObj [(''should'', JArr (shouldList cfg b)),
                  (''must'', JArr (mustList cfg b)),
                  (''must_not'', JArr (must_notList cfg b))])]"

definition highlight_field :: "string \<Rightarrow> json" where
  "highlight_field f =
     JObj [(f, JObj [(''matched_fields'', JArr [JStr f, JStr (f @ ''.exact'')]),
                     (''type'', JStr ''fvh'')])]"

definition highlight :: json where
  "highlight =
     JObj [(''fields'',
            JArr (map highlight_field
                    [''title'', ''description'', ''freemanualtags_searchable'',
                     ''blocks_plaintext'', ''subjects'', ''manualfilecontent'']))]"

definition query_block ::
  "config \<Rightarrow> string \<Rightarrow> (string \<times> json) list \<Rightarrow> (string \<times> json) list" where
  "query_block cfg qs bodyParams =
     (if \<not> isEmpty (JStr qs) then
        AList.update ''highlight'' highlight
          (AList.update ''query'' (bool_query cfg (tokenize_words (query_words qs))) bodyParams)
      else bodyParams)"

subsection \<open>Sort and paging\<close>

text \<open>
  Assigning a string to the property \<^verbatim>\<open>__proto__\<close> of the fresh \<^verbatim>\<open>sortObj\<close> creates no
  property; any other name creates it.
\<close>

definition sort_block ::
  "string \<Rightarrow> string \<Rightarrow> (string \<times> json) list \<Rightarrow> (string \<times> json) list" where
  "sort_block sort_by sort_order bodyParams =
     (if sort_by \<noteq> ''bestmatch'' then
        let sorts = (case map_of bodyParams ''sort'' of Some (JArr xs) \<Rightarrow> xs | _ \<Rightarrow> []);
            direction = JStr (if sort_order = ''desc'' then ''desc'' else ''asc'');
            sortObj = (if sort_by = ''__proto__'' then [] else AList.update sort_by direction [])
        in AList.update ''sort'' (JArr (sorts @ [JObj sortObj])) bodyParams
      else bodyParams)"

definition paging_block ::
  "number \<Rightarrow> number \<Rightarrow> (string \<times> json) list \<Rightarrow> (string \<times> json) list" where
  "paging_block pg sz bodyParams =
     (let bodyParams =
            (if js_gt0 sz then AList.update ''size'' (JNum sz) bodyParams else bodyParams)
      in if js_gt0 pg then
           let s = (if js_gt0 sz then sz else Finite 0);
               from = js_mul (js_sub pg (Finite 1)) s
           in AList.update ''from'' (JNum from) bodyParams
         else bodyParams)"

subsection \<open>The post filter\<close>

definition aggFieldsMapping :: "(string \<times> string) list" where
  "aggFieldsMapping =
     [(''kompasscomponent_agg.inner.kompasscomponent_token'', ''kompasscomponent''),
      (''targetaudience_agg.inner.targetaudience_token'', ''targetaudience''),
      (''organisationunit_agg.inner.organisationunit_token'', ''organisationunit''),
      (''informationtype_agg.inner.informationtype_token'', ''informationtype'')]"

definition allowed_content_types :: json where
  "allowed_content_types = JArr [JStr ''Manual'']"

definition allowed_review_states :: "config \<Rightarrow> json" where
  "allowed_review_states cfg =
     (case map_of (reviewstatemapping cfg) ''Manual'' of Some v \<Rightarrow> v | None \<Rightarrow> JUndefined)"

definition global_terms :: "config \<Rightarrow> json list" where
  "global_terms cfg =
     [JObj [(''terms'', JObj [(''portal_type'', allowed_content_types)])],
      JObj [(''terms'', JObj [(''review_state'', allowed_review_states cfg)])]]"

text \<open>The read \<^verbatim>\<open>aggValueObj[aggName]\<close> for a key of the object.\<close>

definition aggValues :: "(string \<times> json list) list \<Rightarrow> string \<Rightarrow> json" where
  "aggValues aggValueObj aggName =
     (case map_of aggValueObj aggName of Some vs \<Rightarrow> JArr vs | None \<Rightarrow> JUndefined)"

text \<open>
  Both reductions run over \<^verbatim>\<open>Object.keys(aggValueObj)\<close>. A name without entry in
  \<^verbatim>\<open>aggFieldsMapping\<close> gives the field name \<^verbatim>\<open>undefined\<close>, which neither array of field
  names includes.
\<close>

definition additionalterms :: "constants \<Rightarrow> (string \<times> json list) list \<Rightarrow> json list" where
  "additionalterms cst aggValueObj =
     fold (\<lambda>aggName accumulator.
             (case map_of aggFieldsMapping aggName of
                Some fieldName \<Rightarrow>
                  (if fieldName \<in> set (listFilterFields cst)
                   then accumulator
                        @ [JObj [(''terms'', JObj [(fieldName, aggValues aggValueObj aggName)])]]
                   else accumulator)
              | None \<Rightarrow> accumulator))
       (own_keys aggValueObj) []"

definition nested_clause :: "string \<Rightarrow> json \<Rightarrow> json" where
  "nested_clause fieldName vals =
     JObj [(''nested'',
            JObj [(''path'', JStr fieldName),
                  (''query'',
                   JObj [(''bool'',
                          JObj [(''must'',
                                 JArr [JObj [(''terms'',
                                              JObj [(fieldName @ ''.token'', vals)])]])])])])]"

definition nested_filter :: "constants \<Rightarrow> (string \<times> json list) list \<Rightarrow> json list" where
  "nested_filter cst aggValueObj =
     fold (\<lambda>aggName accumulator.
             (case map_of aggFieldsMapping aggName of
                Some fieldName \<Rightarrow>
                  (if fieldName \<in> set (nestedFilterFields cst)
                   then accumulator @ [nested_clause fieldName (aggValues aggValueObj aggName)]
                   else accumulator)
              | None \<Rightarrow> accumulator))
       (own_keys aggValueObj) []"

definition post_filter :: "json list \<Rightarrow> json list \<Rightarrow> json" where
  "post_filter terms filter_list =
     JObj [(''bool'',
            JObj ([(''must'', JArr terms)]
                  @ (if \<not> isEmpty (JArr filter_list)
                     then [(''filter'', JArr filter_list)] else [])))]"

subsection \<open>The aggregations\<close>

text \<open>Reading an array element by index; a missing one gives the property name \<^verbatim>\<open>undefined\<close>.\<close>

definition arr_prop :: "string list \<Rightarrow> nat \<Rightarrow> string" where
  "arr_prop xs i = (if i < length xs then xs ! i else ''undefined'')"

definition el_nested_path :: "json \<Rightarrow> string" where
  "el_nested_path el =
     (case get ''nested'' el of
        Some n \<Rightarrow> (case get ''path'' n of Some (JStr p) \<Rightarrow> p | _ \<Rightarrow> [])
      | None \<Rightarrow> [])"

definition aggregation_filter :: "json list \<Rightarrow> string list \<Rightarrow> json" where
  "aggregation_filter filter_list agg =
     (if isEmpty (JArr filter_list) then JObj [(''match_all'', JObj [])]
      else JObj [(''bool'',
                  JObj [(''filter'',
                         JArr (filter (\<lambda>el. \<not> startsWith (arr_prop agg 0) (el_nested_path el))
                                 filter_list))])])"

text \<open>
  The two passes over \<^verbatim>\<open>Object.keys(aggFieldsMapping)\<close>; each callback extends
  \<^verbatim>\<open>bodyParams['aggs']\<close> by one key or leaves it.
\<close>

definition list_aggs_callback ::
  "constants \<Rightarrow> string \<Rightarrow> (string \<times> json) list \<Rightarrow> (string \<times> json) list" where
  "list_aggs_callback cst aggName aggs =
     (case map_of aggFieldsMapping aggName of
        Some fieldName \<Rightarrow>
          (if fieldName \<in> set (listFilterFields cst)
           then AList.update aggName
                  (JObj [(''terms'', JObj [(''field'', JStr fieldName)])]) aggs
           else aggs)
      | None \<Rightarrow> aggs)"

definition list_aggs :: "constants \<Rightarrow> (string \<times> json) list \<Rightarrow> (string \<times> json) list" where
  "list_aggs cst aggs = fold (list_aggs_callback cst) (map fst aggFieldsMapping) aggs"

definition inner_aggs :: "string \<Rightarrow> string \<Rightarrow> json" where
  "inner_aggs fieldName token_agg =
     JObj [(''inner'',
            JObj [(''nested'', JObj [(''path'', JStr fieldName)]),
                  (''aggs'',
                   JObj [(token_agg,
                          JObj [(''terms'',
                                 JObj [(''field'', JStr (fieldName @ ''.token'')),
                                       (''order'', JObj [(''_key'', JStr ''asc'')]),
                                       (''size'', JNum (Finite 30))]),
                                (''aggs'',
                                 JObj [(''somemoredatafromelasticsearch'',
                                        JObj [(''top_hits'',
                                               JObj [(''size'', JNum (Finite 1)),
                                                     (''_source'',
                                                      JObj [(''includes'',
                                                             JArr [JStr fieldName])])])])])])])])]"

definition nested_aggs_callback ::
  "constants \<Rightarrow> json list \<Rightarrow> string \<Rightarrow> (string \<times> json) list \<Rightarrow> (string \<times> json) list" where
  "nested_aggs_callback cst filter_list aggName aggs =
     (let myaggs = split_on (CHR ''.'') aggName in
      (case map_of aggFieldsMapping aggName of
         Some fieldName \<Rightarrow>
           (if fieldName \<in> set (nestedFilterFields cst) then
              let flt = aggregation_filter filter_list myaggs;
                  aggBucketTermsComponent =
                    [(''aggs'', inner_aggs fieldName (arr_prop myaggs 2))]
                    @ (if \<not> isEmpty flt then [(''filter'', flt)] else [])
              in AList.update (arr_prop myaggs 0) (JObj aggBucketTermsComponent) aggs
            else aggs)
       | None \<Rightarrow> aggs))"

definition nested_aggs ::
  "constants \<Rightarrow> json list \<Rightarrow> (string \<times> json) list \<Rightarrow> (string \<times> json) list" where
  "nested_aggs cst filter_list aggs =
     fold (nested_aggs_callback cst filter_list) (map fst aggFieldsMapping) aggs"

subsection \<open>serialize\<close>

text \<open>
  The terms of the post filter and the nested filter clauses. With selected filters both
  come from \<^verbatim>\<open>getFilters\<close>, whose TypeError leaves \<^verbatim>\<open>serialize\<close>.
\<close>

definition selected_filters ::
  "constants \<Rightarrow> config \<Rightarrow> filterchain list \<Rightarrow> error + (json list \<times> json list)" where
  "selected_filters cst cfg fs =
     (if length fs \<noteq> 0 then
        (case getFilters fs of
           Inl e \<Rightarrow> Inl e
         | Inr aggValueObj \<Rightarrow>
             Inr (global_terms cfg @ additionalterms cst aggValueObj,
                  nested_filter cst aggValueObj))
      else Inr (global_terms cfg, []))"

definition serialize :: "constants \<Rightarrow> config \<Rightarrow> stateQuery \<Rightarrow> error + json" where
  "serialize cst cfg st =
     (let bodyParams = query_block cfg (queryString st) [];
          bodyParams = sort_block (sortBy st) (sortOrder st) bodyParams;
          bodyParams = paging_block (page st) (size' st) bodyParams
      in case selected_filters cst cfg (filters st) of
           Inl e \<Rightarrow> Inl e
         | Inr (terms, filter_list) \<Rightarrow>
             (let bodyParams =
                    AList.update ''post_filter'' (post_filter terms filter_list) bodyParams;
                  aggs = nested_aggs cst filter_list (list_aggs cst []);
                  bodyParams = AList.update ''aggs'' (JObj aggs) bodyParams
              in Inr (JObj bodyParams)))"

section \<open>Auxiliary notions and example inputs\<close>

text \<open>
  The values an object holds for a name (none when the name is no key), the values a list
  of pairs holds for a name, and the invariant of the object that \<^verbatim>\<open>getFilters\<close> builds:
  distinct keys, none of them inherited, no empty value list.
\<close>

definition obj_values :: "(string \<times> json list) list \<Rightarrow> string \<Rightarrow> json list" where
  "obj_values obj name = (case map_of obj name of Some vs \<Rightarrow> vs | None \<Rightarrow> [])"

definition pair_values :: "(string \<times> json) list \<Rightarrow> string \<Rightarrow> json list" where
  "pair_values ps name = map snd (filter (\<lambda>p. fst p = name) ps)"

definition good_obj :: "(string \<times> json list) list \<Rightarrow> bool" where
  "good_obj obj =
     (distinct (map fst obj)
      \<and> list_all (\<lambda>p. fst p \<notin> set object_prototype_keys \<and> snd p \<noteq> []) obj)"

text \<open>Reading along a path of keys, in a value and in the result of \<^verbatim>\<open>serialize\<close>.\<close>

fun get_path :: "string list \<Rightarrow> json \<Rightarrow> json option" where
  "get_path [] j = Some j"
| "get_path (k # ks) j = (case get k j of Some v \<Rightarrow> get_path ks v | None \<Rightarrow> None)"

fun returned_path :: "string list \<Rightarrow> error + json \<Rightarrow> json option" where
  "returned_path ks (Inr body) = get_path ks body"
| "returned_path ks (Inl e) = None"

text \<open>
  What the two reductions over the keys of \<^verbatim>\<open>aggValueObj\<close> push for one key: the nested
  clause, and the terms clause of a list field.
\<close>

definition nested_sel :: "constants \<Rightarrow> (string \<times> json list) list \<Rightarrow> string \<Rightarrow> json option" where
  "nested_sel cst obj a =
     (case map_of aggFieldsMapping a of
        Some f \<Rightarrow>
          (if f \<in> set (nestedFilterFields cst)
           then Some (nested_clause f (aggValues obj a)) else None)
      | None \<Rightarrow> None)"

definition list_sel :: "constants \<Rightarrow> (string \<times> json list) list \<Rightarrow> string \<Rightarrow> json option" where
  "list_sel cst obj a =
     (case map_of aggFieldsMapping a of
        Some f \<Rightarrow>
          (if f \<in> set (listFilterFields cst)
           then Some (JObj [(''terms'', JObj [(f, aggValues obj a)])]) else None)
      | None \<Rightarrow> None)"

definition example_constants :: constants where
  "example_constants =
     \<lparr>listFilterFields = [''freemanualtags''],
      nestedFilterFields =
        [''kompasscomponent'', ''targetaudience'', ''organisationunit'', ''informationtype'']\<rparr>"

definition example_config :: config where
  "example_config =
     \<lparr>reviewstatemapping = [(''Manual'', JArr [JStr ''published''])],
      simpleFields = [''title^1.4'', ''description'']\<rparr>"

definition example_state :: stateQuery where
  "example_state =
     \<lparr>queryString = ''foo'', sortBy = ''bestmatch'', sortOrder = ''asc'',
      page = Finite 3, size' = Finite 10,
      filters =
        [Chain ''kompasscomponent_agg.inner.kompasscomponent_token'' (JStr ''BEW'') None]\<rparr>"


definition example_query :: string where
  "example_query =
     ''qux quux '' @ [quot] @ ''baz'' @ [quot] @ '' +foo +'' @ [quot] @ ''x'' @ [quot]
     @ '' -bar''"

section \<open>Properties of the number arithmetic\<close>







section \<open>Properties of getFilters\<close>

lemma set_update_subset: "set (AList.update k v al) \<subseteq> insert (k, v) (set al)"
  by (induction al) auto

lemma good_obj_update:
  assumes "good_obj obj" "k \<notin> set object_prototype_keys" "w \<noteq> []"
  shows "good_obj (AList.update k w obj)"
proof -
  have "\<forall>p\<in>set (AList.update k w obj). fst p \<notin> set object_prototype_keys \<and> snd p \<noteq> []"
    using assms set_update_subset[of k w obj] by (auto simp: good_obj_def list_all_iff)
  then show ?thesis
    using assms(1) by (simp add: good_obj_def list_all_iff distinct_update)
qed

lemma good_obj_append:
  assumes "good_obj obj" "k \<notin> set object_prototype_keys" "k \<notin> fst ` set obj" "w \<noteq> []"
  shows "good_obj (obj @ [(k, w)])"
  using assms by (auto simp: good_obj_def)

lemma obj_values_update:
  "obj_values (AList.update k w obj) n = (if n = k then w else obj_values obj n)"
  by (simp add: obj_values_def update_conv')

lemma obj_values_append:
  "k \<notin> fst ` set obj \<Longrightarrow> obj_values (obj @ [(k, w)]) n = (if n = k then w else obj_values obj n)"
proof -
  assume "k \<notin> fst ` set obj"
  then have "map_of obj k = None" by (simp add: map_of_eq_None_iff)
  then show ?thesis
    by (cases "map_of obj n") (auto simp: obj_values_def map_add_def)
qed

lemma obj_values_not_key: "n \<notin> fst ` set obj \<Longrightarrow> obj_values obj n = []"
proof -
  assume "n \<notin> fst ` set obj"
  then have "map_of obj n = None" by (simp add: map_of_eq_None_iff)
  then show ?thesis by (simp add: obj_values_def)
qed

lemma good_obj_key_iff: "good_obj obj \<Longrightarrow> n \<in> fst ` set obj \<longleftrightarrow> obj_values obj n \<noteq> []"
proof (cases "map_of obj n")
  case None
  then have "n \<notin> fst ` set obj" by (simp add: map_of_eq_None_iff)
  then show ?thesis by (simp add: obj_values_not_key)
next
  case (Some vs)
  assume "good_obj obj"
  with map_of_SomeD[OF Some] have "vs \<noteq> []" "n \<in> fst ` set obj"
    by (force simp: good_obj_def list_all_iff)+
  with Some show ?thesis by (simp add: obj_values_def)
qed

lemma pair_values_Cons:
  "pair_values (p # ps) n = (if fst p = n then snd p # pair_values ps n else pair_values ps n)"
  by (simp add: pair_values_def)

lemma pair_values_append: "pair_values (ps @ qs) n = pair_values ps n @ pair_values qs n"
  by (simp add: pair_values_def)

lemma getChildFilter_Inr:
  assumes "getChildFilter c obj = Inr obj'" "good_obj obj"
  shows "good_obj obj'
       \<and> (\<forall>n. obj_values obj' n = obj_values obj n @ pair_values (chain_pairs c) n)
       \<and> list_all (\<lambda>p. fst p \<notin> set object_prototype_keys) (chain_pairs c)"
  using assms
proof (induction c obj arbitrary: obj' rule: getChildFilter.induct)
  case (1 aggName fieldValue child aggValueObj)
  show ?case
  proof (cases "js_in aggName aggValueObj")
    case True
    with "1.prems"(1) obtain vs where vs: "map_of aggValueObj aggName = Some vs"
      by (auto split: option.splits)
    then have own: "aggName \<in> fst ` set aggValueObj"
      by (metis map_of_eq_None_iff option.distinct(1))
    with "1.prems"(2) have np: "aggName \<notin> set object_prototype_keys"
      by (auto simp: good_obj_def list_all_iff)
    let ?o = "AList.update aggName (vs @ [fieldValue]) aggValueObj"
    have g: "good_obj ?o" using "1.prems"(2) np by (simp add: good_obj_update)
    have v: "obj_values ?o n = obj_values aggValueObj n @ pair_values [(aggName, fieldValue)] n" for n
      unfolding obj_values_update using vs by (simp add: pair_values_def obj_values_def)
    show ?thesis
    proof (cases child)
      case None
      with "1.prems"(1) True vs have "obj' = ?o" by simp
      with g v np None show ?thesis by (simp add: pair_values_def)
    next
      case (Some ch)
      with "1.prems"(1) True vs have r: "getChildFilter ch ?o = Inr obj'" by simp
      have "good_obj obj'
       \<and> (\<forall>n. obj_values obj' n = obj_values ?o n @ pair_values (chain_pairs ch) n)
       \<and> list_all (\<lambda>p. fst p \<notin> set object_prototype_keys) (chain_pairs ch)"
        using "1.IH"[OF _ Some r g] True vs by simp
      with v np Some show ?thesis by (simp add: pair_values_Cons pair_values_def)
    qed
  next
    case False
    then have np: "aggName \<notin> set object_prototype_keys" and nk: "aggName \<notin> fst ` set aggValueObj"
      by (auto simp: js_in_def)
    let ?o = "aggValueObj @ [(aggName, [fieldValue])]"
    have g: "good_obj ?o" using "1.prems"(2) np nk by (simp add: good_obj_append)
    have v: "obj_values ?o n = obj_values aggValueObj n @ pair_values [(aggName, fieldValue)] n" for n
      unfolding obj_values_append[OF nk] using obj_values_not_key[OF nk]
      by (simp add: pair_values_def)
    show ?thesis
    proof (cases child)
      case None
      with "1.prems"(1) False have "obj' = ?o" by simp
      with g v np None show ?thesis by (simp add: pair_values_def)
    next
      case (Some ch)
      with "1.prems"(1) False have r: "getChildFilter ch ?o = Inr obj'" by simp
      have "good_obj obj'
       \<and> (\<forall>n. obj_values obj' n = obj_values ?o n @ pair_values (chain_pairs ch) n)
       \<and> list_all (\<lambda>p. fst p \<notin> set object_prototype_keys) (chain_pairs ch)"
        using "1.IH"[OF _ Some r g] False by simp
      with v np Some show ?thesis by (simp add: pair_values_Cons pair_values_def)
    qed
  qed
qed

lemma getChildFilter_returns:
  assumes "good_obj obj" "list_all (\<lambda>p. fst p \<notin> set object_prototype_keys) (chain_pairs c)"
  shows "\<exists>obj'. getChildFilter c obj = Inr obj'"
  using assms
proof (induction c obj rule: getChildFilter.induct)
  case (1 aggName fieldValue child aggValueObj)
  from "1.prems"(2) have np: "aggName \<notin> set object_prototype_keys" by simp
  define o' where "o' =
    (case map_of aggValueObj aggName of
       Some vs \<Rightarrow> AList.update aggName (vs @ [fieldValue]) aggValueObj
     | None \<Rightarrow> aggValueObj @ [(aggName, [fieldValue])])"
  have step: "(if js_in aggName aggValueObj then
              (case map_of aggValueObj aggName of
                 Some vs \<Rightarrow> Inr (AList.update aggName (vs @ [fieldValue]) aggValueObj)
               | None \<Rightarrow> Inl TypeError)
            else Inr (aggValueObj @ [(aggName, [fieldValue])])) = Inr o'"
    using np by (auto simp: js_in_def o'_def map_of_eq_None_iff[symmetric] split: option.splits)
  have g: "good_obj o'"
  proof (cases "map_of aggValueObj aggName")
    case None
    then have "aggName \<notin> fst ` set aggValueObj" by (simp add: map_of_eq_None_iff)
    with None "1.prems"(1) np show ?thesis by (simp add: o'_def good_obj_append)
  next
    case (Some vs)
    with "1.prems"(1) np show ?thesis by (simp add: o'_def good_obj_update)
  qed
  show ?case
  proof (cases child)
    case None
    with step show ?thesis by simp
  next
    case (Some ch)
    from "1.prems"(2) Some have "list_all (\<lambda>p. fst p \<notin> set object_prototype_keys) (chain_pairs ch)"
      by simp
    from "1.IH"[OF step Some g this] obtain obj' where "getChildFilter ch o' = Inr obj'" ..
    with step Some show ?thesis by simp
  qed
qed

lemma forEach_getChildFilter_Inr:
  assumes "forEach_getChildFilter fs obj = Inr obj'" "good_obj obj"
  shows "good_obj obj'
       \<and> (\<forall>n. obj_values obj' n = obj_values obj n @ pair_values (concat (map chain_pairs fs)) n)
       \<and> list_all (\<lambda>p. fst p \<notin> set object_prototype_keys) (concat (map chain_pairs fs))"
  using assms
proof (induction fs arbitrary: obj)
  case Nil
  then show ?case by (simp add: pair_values_def)
next
  case (Cons f fs)
  from Cons.prems(1) obtain o1 where
    s1: "getChildFilter f obj = Inr o1" and s2: "forEach_getChildFilter fs o1 = Inr obj'"
    by (auto split: sum.splits)
  from getChildFilter_Inr[OF s1 Cons.prems(2)] have
    g1: "good_obj o1"
    and v1: "\<And>n. obj_values o1 n = obj_values obj n @ pair_values (chain_pairs f) n"
    and p1: "list_all (\<lambda>p. fst p \<notin> set object_prototype_keys) (chain_pairs f)"
    by simp_all
  from Cons.IH[OF s2 g1] v1 p1 show ?case
    by (simp add: pair_values_append)
qed

lemma forEach_getChildFilter_returns:
  assumes "good_obj obj"
    "list_all (\<lambda>p. fst p \<notin> set object_prototype_keys) (concat (map chain_pairs fs))"
  shows "\<exists>obj'. forEach_getChildFilter fs obj = Inr obj'"
  using assms
proof (induction fs arbitrary: obj)
  case Nil
  then show ?case by simp
next
  case (Cons f fs)
  from Cons.prems(2) have
    pf: "list_all (\<lambda>p. fst p \<notin> set object_prototype_keys) (chain_pairs f)"
    and pfs: "list_all (\<lambda>p. fst p \<notin> set object_prototype_keys) (concat (map chain_pairs fs))"
    by simp_all
  from getChildFilter_returns[OF Cons.prems(1) pf] obtain o1 where
    s1: "getChildFilter f obj = Inr o1" ..
  from getChildFilter_Inr[OF s1 Cons.prems(1)] have "good_obj o1" by simp
  from Cons.IH[OF this pfs] s1 show ?case by simp
qed

lemma good_obj_Nil: "good_obj []"
  by (simp add: good_obj_def)

text \<open>
  When \<^verbatim>\<open>getFilters\<close> returns, the object holds for every facet name the values of the
  chains in visiting order, and a name is a key exactly when it has a value. It returns
  exactly when no chain names an inherited property.
\<close>

lemma getFilters_Inr:
  assumes "getFilters fs = Inr obj"
  shows "good_obj obj" and "obj_values obj n = flatten_values fs n"
    and "list_all (\<lambda>p. fst p \<notin> set object_prototype_keys) (concat (map chain_pairs fs))"
  using forEach_getChildFilter_Inr[OF assms[unfolded getFilters_def] good_obj_Nil]
  by (simp_all add: obj_values_def flatten_values_def pair_values_def)

lemma getFilters_returns_iff:
  "(\<exists>obj. getFilters fs = Inr obj)
   \<longleftrightarrow> list_all (\<lambda>p. fst p \<notin> set object_prototype_keys) (concat (map chain_pairs fs))"
  using getFilters_Inr(3) forEach_getChildFilter_returns[OF good_obj_Nil]
  by (auto simp: getFilters_def)

lemma getFilters_map_of:
  assumes "getFilters fs = Inr obj"
  shows "map_of obj n = (if flatten_values fs n = [] then None else Some (flatten_values fs n))"
proof (cases "map_of obj n")
  case None
  with getFilters_Inr(2)[OF assms, of n] show ?thesis by (simp add: obj_values_def)
next
  case (Some vs)
  then have "n \<in> fst ` set obj" by (metis map_of_eq_None_iff option.distinct(1))
  with good_obj_key_iff[OF getFilters_Inr(1)[OF assms], of n]
  have "obj_values obj n \<noteq> []" by simp
  with getFilters_Inr(2)[OF assms, of n] Some show ?thesis by (simp add: obj_values_def)
qed

lemma flatten_values_Nil: "flatten_values [] a = []"
  by (simp add: flatten_values_def)

lemma getFilters_example:
  "getFilters [Chain ''type'' (JStr ''A'') None,
               Chain ''type'' (JStr ''B'') (Some (Chain ''sub'' (JStr ''X'') None))]
   = Inr [(''type'', [JStr ''A'', JStr ''B'']), (''sub'', [JStr ''X''])]"
  by (simp add: getFilters_def js_in_def object_prototype_keys_def)

section \<open>Properties of serialize\<close>

subsection \<open>Reading the returned body\<close>

lemma has_key_get: "has_key k j \<longleftrightarrow> get k j \<noteq> None"
  by (cases j) (auto simp: map_of_eq_None_iff)


lemma map_of_sort_block:
  "k \<noteq> ''sort'' \<Longrightarrow> map_of (sort_block a b bp) k = map_of bp k"
  by (simp add: sort_block_def update_conv' Let_def)

lemma map_of_paging_block:
  "k \<noteq> ''size'' \<Longrightarrow> k \<noteq> ''from'' \<Longrightarrow> map_of (paging_block pg sz bp) k = map_of bp k"
  by (simp add: paging_block_def update_conv' Let_def)

lemma serialize_Inr:
  assumes "serialize cst cfg st = Inr body"
  obtains terms fl where
    "selected_filters cst cfg (filters st) = Inr (terms, fl)"
    "body = JObj (AList.update ''aggs'' (JObj (nested_aggs cst fl (list_aggs cst [])))
             (AList.update ''post_filter'' (post_filter terms fl)
               (paging_block (page st) (size' st)
                 (sort_block (sortBy st) (sortOrder st)
                   (query_block cfg (queryString st) [])))))"
  using assms by (auto simp: serialize_def Let_def split: sum.splits prod.splits)

lemma serialize_get_query:
  assumes "serialize cst cfg st = Inr body"
  shows "get ''query'' body =
           (if queryString st = [] then None
            else Some (bool_query cfg (tokenize_words (query_words (queryString st)))))"
    and "get ''highlight'' body = (if queryString st = [] then None else Some highlight)"
proof -
  from assms obtain terms fl where
    b: "body = JObj (AList.update ''aggs'' (JObj (nested_aggs cst fl (list_aggs cst [])))
             (AList.update ''post_filter'' (post_filter terms fl)
               (paging_block (page st) (size' st)
                 (sort_block (sortBy st) (sortOrder st)
                   (query_block cfg (queryString st) [])))))"
    by (rule serialize_Inr)
  show "get ''query'' body =
           (if queryString st = [] then None
            else Some (bool_query cfg (tokenize_words (query_words (queryString st)))))"
    unfolding b
    by (simp add: update_conv' map_of_paging_block map_of_sort_block query_block_def)
  show "get ''highlight'' body = (if queryString st = [] then None else Some highlight)"
    unfolding b
    by (simp add: update_conv' map_of_paging_block map_of_sort_block query_block_def)
qed


lemma serialize_get_post_filter:
  assumes "serialize cst cfg st = Inr body"
  obtains terms fl where
    "selected_filters cst cfg (filters st) = Inr (terms, fl)"
    "get ''post_filter'' body = Some (post_filter terms fl)"
    "get ''aggs'' body = Some (JObj (nested_aggs cst fl (list_aggs cst [])))"
proof -
  from assms obtain terms fl where
    s: "selected_filters cst cfg (filters st) = Inr (terms, fl)" and
    b: "body = JObj (AList.update ''aggs'' (JObj (nested_aggs cst fl (list_aggs cst [])))
             (AList.update ''post_filter'' (post_filter terms fl)
               (paging_block (page st) (size' st)
                 (sort_block (sortBy st) (sortOrder st)
                   (query_block cfg (queryString st) [])))))"
    by (rule serialize_Inr)
  have "get ''post_filter'' body = Some (post_filter terms fl)"
    "get ''aggs'' body = Some (JObj (nested_aggs cst fl (list_aggs cst [])))"
    unfolding b by (simp_all add: update_conv')
  with s that show ?thesis by blast
qed

lemma serialize_returns_iff:
  "(\<exists>body. serialize cst cfg st = Inr body)
   \<longleftrightarrow> list_all (\<lambda>p. fst p \<notin> set object_prototype_keys) (concat (map chain_pairs (filters st)))"
proof (cases "filters st = []")
  case True
  then show ?thesis by (simp add: serialize_def selected_filters_def Let_def)
next
  case False
  have "(\<exists>body. serialize cst cfg st = Inr body) \<longleftrightarrow> (\<exists>obj. getFilters (filters st) = Inr obj)"
    using False
    by (auto simp: serialize_def selected_filters_def Let_def split: sum.splits)
  then show ?thesis by (simp add: getFilters_returns_iff)
qed

lemma example_state_returns: "\<exists>body. serialize example_constants example_config example_state = Inr body"
  unfolding serialize_returns_iff by (simp add: example_state_def object_prototype_keys_def)

lemma blank_state_returns:
  "\<exists>body. serialize example_constants example_config (example_state\<lparr>queryString := qs\<rparr>) = Inr body"
  unfolding serialize_returns_iff by (simp add: example_state_def object_prototype_keys_def)


subsection \<open>The tokenizer\<close>

text \<open>
  Claim C7. Tokenizing the query string \<^verbatim>\<open>+foo -bar "baz"\<close> puts \<^verbatim>\<open>foo\<close> into
  \<^verbatim>\<open>qs_tailored_must_notexact\<close>, \<^verbatim>\<open>bar\<close> into \<^verbatim>\<open>qs_tailored_mustNot_exact\<close> and
  \<^verbatim>\<open>"baz"\<close>, with its quotation marks, into \<^verbatim>\<open>qs_tailored_should_exact\<close>; the two
  other arrays stay empty.
\<close>

theorem tokenize_example:
  "tokenize_words (query_words (''+foo -bar '' @ [quot] @ ''baz'' @ [quot])) =
     \<lparr>qs_tailored_should_notexact = [],
      qs_tailored_should_exact = [[quot] @ ''baz'' @ [quot]],
      qs_tailored_must_notexact = [''foo''],
      qs_tailored_must_exact = [],
      qs_tailored_mustNot_exact = [''bar'']\<rparr>"
  by code_simp

text \<open>
  A word that starts with \<^verbatim>\<open>-\<close> is pushed without its sign and otherwise unchanged, because
  \<^verbatim>\<open>_removeQuotationMarks\<close> returns its argument.
\<close>

lemma mustNot_push:
  "startsWith word ''-'' \<Longrightarrow>
   qs_tailored_mustNot_exact (make_fuzzy_and_enrich_with_word_parts word b)
   = qs_tailored_mustNot_exact b @ [drop 1 word]"
  by (simp add: make_fuzzy_and_enrich_with_word_parts_def removeQuotationMarks_def Let_def)

text \<open>
  Claim C4. The claim says that a word with the prefix \<^verbatim>\<open>-\<close> reaches
  \<^verbatim>\<open>qs_tailored_mustNot_exact\<close> with the sign stripped and its quotation marks removed. For
  the query string \<^verbatim>\<open>-"bar"\<close> the array holds \<^verbatim>\<open>"bar"\<close>, quotation marks included.
\<close>

theorem mustNot_keeps_quotation_marks:
  "qs_tailored_mustNot_exact (tokenize_words (query_words (''-'' @ [quot] @ ''bar'' @ [quot])))
   = [[quot] @ ''bar'' @ [quot]]"
  by code_simp

lemma tokenize_foo:
  "tokenize_words (query_words ''foo'') =
     \<lparr>qs_tailored_should_notexact = [''foo foo~''], qs_tailored_should_exact = [],
      qs_tailored_must_notexact = [], qs_tailored_must_exact = [],
      qs_tailored_mustNot_exact = []\<rparr>"
  by code_simp

lemma tokenize_example_query:
  "tokenize_words (query_words example_query) =
     \<lparr>qs_tailored_should_notexact = [''qux qux~'', ''quux quux~''],
      qs_tailored_should_exact = [[quot] @ ''baz'' @ [quot]],
      qs_tailored_must_notexact = [''foo''],
      qs_tailored_must_exact = [[quot] @ ''x'' @ [quot]],
      qs_tailored_mustNot_exact = [''bar'']\<rparr>"
  by code_simp

lemma simpleFields_exact_example:
  "simpleFields_exact [''title^1.4'', ''description'']
   = [''title.exact^1.4'', ''description.exact'']"
  by code_simp

lemma query_words_whitespace:
  assumes "list_all is_whitespace qs"
  shows "query_words qs = []"
proof -
  from assms have d: "dropWhile is_whitespace qs = []"
    by (simp add: list_all_iff)
  have "js_trim qs = []" unfolding js_trim_def d by simp
  then show ?thesis by (simp add: query_words_def)
qed

lemma tokenize_words_Nil: "tokenize_words [] = no_buckets"
  by (simp add: tokenize_words_def)

subsection \<open>The query and highlight keys\<close>

text \<open>
  Claim C2, as amended. For a state with a non-empty query string the \<^verbatim>\<open>bool\<close> object of
  the returned body always has the three keys \<^verbatim>\<open>should\<close>, \<^verbatim>\<open>must\<close> and \<^verbatim>\<open>must_not\<close>.
  A non-empty tokenizer array gives one clause
  \<^verbatim>\<open>{query_string: {query: <the array joined by spaces>, fields: <field list>}}\<close>, an empty
  one gives none: \<^verbatim>\<open>should\<close> holds the clauses of \<^verbatim>\<open>qs_tailored_should_notexact\<close> (over
  \<^verbatim>\<open>simpleFields\<close>) and \<^verbatim>\<open>qs_tailored_should_exact\<close> (over the exact fields), \<^verbatim>\<open>must\<close>
  those of \<^verbatim>\<open>qs_tailored_must_notexact\<close> and \<^verbatim>\<open>qs_tailored_must_exact\<close>, and \<^verbatim>\<open>must_not\<close>
  that of \<^verbatim>\<open>qs_tailored_mustNot_exact\<close>. An array without clause is emitted as the empty
  array; no key is left out.
\<close>

theorem bool_query_keys:
  assumes "serialize cst cfg st = Inr body" and "queryString st \<noteq> []"
  shows "let b = tokenize_words (query_words (queryString st));
             clause = (\<lambda>bucket flds.
               JObj [(''query_string'',
                      JObj [(''query'', JStr (js_join '' '' bucket)),
                            (''fields'', JArr (map JStr flds))])]);
             clauses = (\<lambda>bucket flds. if bucket = [] then [] else [clause bucket flds]);
             fuzzy = simpleFields cfg;
             exact = simpleFields_exact (simpleFields cfg)
         in get ''query'' body =
              Some (JObj [(''bool'',
                 JObj [(''should'',
                        JArr (clauses (qs_tailored_should_notexact b) fuzzy
                              @ clauses (qs_tailored_should_exact b) exact)),
                       (''must'',
                        JArr (clauses (qs_tailored_must_notexact b) fuzzy
                              @ clauses (qs_tailored_must_exact b) exact)),
                       (''must_not'',
                        JArr (clauses (qs_tailored_mustNot_exact b) exact))])])"
  using serialize_get_query(1)[OF assms(1)] assms(2)
  by (simp add: bool_query_def shouldList_def mustList_def must_notList_def query_string_def
      Let_def)

theorem bool_query_keys_witness:
  "\<exists>body.
     serialize example_constants example_config (example_state\<lparr>queryString := example_query\<rparr>)
       = Inr body
     \<and> get ''query'' body =
         Some (JObj [(''bool'',
            JObj [(''should'',
                   JArr [JObj [(''query_string'',
                               JObj [(''query'', JStr ''qux qux~ quux quux~''),
                                     (''fields'', JArr [JStr ''title^1.4'', JStr ''description''])])],
                         JObj [(''query_string'',
                               JObj [(''query'', JStr ([quot] @ ''baz'' @ [quot])),
                                     (''fields'',
                                      JArr [JStr ''title.exact^1.4'',
                                            JStr ''description.exact''])])]]),
                  (''must'',
                   JArr [JObj [(''query_string'',
                               JObj [(''query'', JStr ''foo''),
                                     (''fields'', JArr [JStr ''title^1.4'', JStr ''description''])])],
                         JObj [(''query_string'',
                               JObj [(''query'', JStr ([quot] @ ''x'' @ [quot])),
                                     (''fields'',
                                      JArr [JStr ''title.exact^1.4'',
                                            JStr ''description.exact''])])]]),
                  (''must_not'',
                   JArr [JObj [(''query_string'',
                               JObj [(''query'', JStr ''bar''),
                                     (''fields'',
                                      JArr [JStr ''title.exact^1.4'',
                                            JStr ''description.exact''])])]])])])"
proof -
  obtain body where
    h: "serialize example_constants example_config (example_state\<lparr>queryString := example_query\<rparr>)
          = Inr body"
    using blank_state_returns ..
  have q: "queryString (example_state\<lparr>queryString := example_query\<rparr>) \<noteq> []"
    by (simp add: example_query_def)
  have f: "simpleFields example_config = [''title^1.4'', ''description'']"
    by (simp add: example_config_def)
  from bool_query_keys[OF h q] h show ?thesis
    by (simp add: Let_def tokenize_example_query simpleFields_exact_example f)
qed

text \<open>
  The claim as stated fails: for the query string \<^verbatim>\<open>foo\<close> both arrays that feed
  \<^verbatim>\<open>must\<close> are empty, and the key \<^verbatim>\<open>must\<close> is present with the empty array.
\<close>

theorem empty_must_emitted_counterexample:
  "queryString example_state \<noteq> []
   \<and> qs_tailored_must_notexact (tokenize_words (query_words (queryString example_state))) = []
   \<and> qs_tailored_must_exact (tokenize_words (query_words (queryString example_state))) = []
   \<and> returned_path [''query'', ''bool'', ''must'']
        (serialize example_constants example_config example_state) = Some (JArr [])"
proof -
  obtain body where h: "serialize example_constants example_config example_state = Inr body"
    using example_state_returns ..
  from serialize_get_query(1)[OF h]
  have "get_path [''query'', ''bool'', ''must''] body = Some (JArr [])"
    by (simp add: example_state_def tokenize_foo bool_query_def mustList_def)
  with h show ?thesis by (simp add: example_state_def tokenize_foo)
qed

text \<open>
  Claim C3, as amended. The returned body has the key \<^verbatim>\<open>query\<close>, and likewise the key
  \<^verbatim>\<open>highlight\<close>, exactly when the query string is not the empty string: the guard is
  \<^verbatim>\<open>!isEmpty(queryString)\<close>, taken before the string is trimmed. A non-empty query string
  of white space only (tab, line feed, vertical tab, form feed, carriage return, space,
  no-break space) gives the query \<^verbatim>\<open>{bool: {should: [], must: [], must_not: []}}\<close>.
\<close>

theorem query_key_iff:
  assumes "serialize cst cfg st = Inr body"
  shows "(has_key ''query'' body \<longleftrightarrow> queryString st \<noteq> [])
       \<and> (has_key ''highlight'' body \<longleftrightarrow> queryString st \<noteq> [])
       \<and> (queryString st \<noteq> [] \<and> list_all is_whitespace (queryString st) \<longrightarrow>
            get ''query'' body =
              Some (JObj [(''bool'',
                           JObj [(''should'', JArr []), (''must'', JArr []),
                                 (''must_not'', JArr [])])]))"
proof -
  have "get ''query'' body =
              Some (JObj [(''bool'',
                           JObj [(''should'', JArr []), (''must'', JArr []),
                                 (''must_not'', JArr [])])])"
    if "queryString st \<noteq> []" "list_all is_whitespace (queryString st)"
    using serialize_get_query(1)[OF assms] that
    by (simp add: query_words_whitespace tokenize_words_Nil bool_query_def shouldList_def
        mustList_def must_notList_def no_buckets_def)
  with serialize_get_query[OF assms] show ?thesis by (simp add: has_key_get)
qed

theorem query_key_iff_witness:
  "\<exists>body body'.
     serialize example_constants example_config (example_state\<lparr>queryString := []\<rparr>) = Inr body
     \<and> \<not> has_key ''query'' body \<and> \<not> has_key ''highlight'' body
     \<and> serialize example_constants example_config
          (example_state\<lparr>queryString := [CHR 0x09, CHR 0x20]\<rparr>) = Inr body'
     \<and> has_key ''query'' body' \<and> has_key ''highlight'' body'
     \<and> get ''query'' body' =
           Some (JObj [(''bool'',
                        JObj [(''should'', JArr []), (''must'', JArr []),
                              (''must_not'', JArr [])])])"
proof -
  obtain body where
    h: "serialize example_constants example_config (example_state\<lparr>queryString := []\<rparr>) = Inr body"
    using blank_state_returns ..
  obtain body' where
    h': "serialize example_constants example_config
           (example_state\<lparr>queryString := [CHR 0x09, CHR 0x20]\<rparr>) = Inr body'"
    using blank_state_returns ..
  from query_key_iff[OF h] have 1: "\<not> has_key ''query'' body \<and> \<not> has_key ''highlight'' body"
    by simp
  from query_key_iff[OF h'] have 2: "has_key ''query'' body' \<and> has_key ''highlight'' body'
     \<and> get ''query'' body' =
           Some (JObj [(''bool'',
                        JObj [(''should'', JArr []), (''must'', JArr []),
                              (''must_not'', JArr [])])])"
    by (simp add: is_whitespace_def)
  from h h' 1 2 show ?thesis by blast
qed

text \<open>
  The claim as stated fails: the query string of one space is not empty, so the body has a
  \<^verbatim>\<open>query\<close> key, whose three arrays are empty, and a \<^verbatim>\<open>highlight\<close> key.
\<close>

theorem whitespace_query_counterexample:
  "list_all is_whitespace '' ''
   \<and> returned_path [''query'']
        (serialize example_constants example_config (example_state\<lparr>queryString := '' ''\<rparr>))
       = Some (JObj [(''bool'',
                      JObj [(''should'', JArr []), (''must'', JArr []),
                            (''must_not'', JArr [])])])
   \<and> returned_path [''highlight'']
        (serialize example_constants example_config (example_state\<lparr>queryString := '' ''\<rparr>))
       = Some highlight"
proof -
  obtain body where
    h: "serialize example_constants example_config (example_state\<lparr>queryString := '' ''\<rparr>) = Inr body"
    using blank_state_returns ..
  have t: "tokenize_words (query_words '' '') = no_buckets" by code_simp
  from serialize_get_query[OF h] have
    "get ''query'' body = Some (JObj [(''bool'',
                      JObj [(''should'', JArr []), (''must'', JArr []),
                            (''must_not'', JArr [])])])"
    "get ''highlight'' body = Some highlight"
    by (simp_all add: t bool_query_def shouldList_def mustList_def must_notList_def no_buckets_def)
  with h show ?thesis by (simp add: is_whitespace_def)
qed

subsection \<open>Paging\<close>




subsection \<open>The post filter\<close>

text \<open>
  A key of \<^verbatim>\<open>aggFieldsMapping\<close> is no array index, so the order in which
  \<^verbatim>\<open>Object.keys\<close> lists the array indices does not show in the two reductions.
\<close>

lemma aggFieldsMapping_key_no_index:
  "map_of aggFieldsMapping a = Some f \<Longrightarrow> \<not> is_array_index a"
  by (auto simp: aggFieldsMapping_def is_array_index_def is_digit_def split: if_splits)

lemma aggFieldsMapping_inj:
  "map_of aggFieldsMapping a = Some f \<Longrightarrow> map_of aggFieldsMapping a' = Some f \<Longrightarrow> a = a'"
  by (auto simp: aggFieldsMapping_def split: if_splits)


lemma map_filter_own_keys:
  assumes "\<And>a. is_array_index a \<Longrightarrow> g a = None"
  shows "List.map_filter g (own_keys obj) = List.map_filter g (map fst obj)"
proof -
  have 1: "filter (\<lambda>x. g x \<noteq> None) (filter is_array_index ks) = []" for ks
    using assms by (induction ks) auto
  have 2: "filter (\<lambda>x. g x \<noteq> None) (filter (\<lambda>k. \<not> is_array_index k) ks)
           = filter (\<lambda>x. g x \<noteq> None) ks" for ks
    using assms by (induction ks) auto
  have "filter (\<lambda>x. g x \<noteq> None) (own_keys obj) = filter (\<lambda>x. g x \<noteq> None) (map fst obj)"
    by (simp only: own_keys_def filter_append filter_sort 1 2 sort_key_simps append_Nil)
  then show ?thesis by (simp only: map_filter_def)
qed

lemma set_map_filter: "set (List.map_filter g xs) = {y. \<exists>x\<in>set xs. g x = Some y}"
  by (induction xs) (auto split: option.splits)

lemma distinct_map_filter:
  assumes "distinct xs" "\<And>x x' y. g x = Some y \<Longrightarrow> g x' = Some y \<Longrightarrow> x = x'"
  shows "distinct (List.map_filter g xs)"
  using assms(1)
proof (induction xs)
  case Nil
  then show ?case by simp
next
  case (Cons x xs)
  show ?case
  proof (cases "g x")
    case None
    with Cons show ?thesis by simp
  next
    case (Some y)
    have "y \<notin> set (List.map_filter g xs)"
    proof
      assume "y \<in> set (List.map_filter g xs)"
      then obtain x' where "x' \<in> set xs" "g x' = Some y" by (auto simp: set_map_filter)
      with assms(2)[OF Some this(2)] Cons.prems show False by auto
    qed
    with Some Cons show ?thesis by simp
  qed
qed

lemma nested_filter_fold:
  "fold (\<lambda>aggName accumulator.
             (case map_of aggFieldsMapping aggName of
                Some fieldName \<Rightarrow>
                  (if fieldName \<in> set (nestedFilterFields cst)
                   then accumulator @ [nested_clause fieldName (aggValues obj aggName)]
                   else accumulator)
              | None \<Rightarrow> accumulator)) ks acc
   = acc @ List.map_filter (nested_sel cst obj) ks"
  by (induction ks arbitrary: acc)
     (auto simp: nested_sel_def split: option.splits)

lemma nested_filter_eq:
  "nested_filter cst obj = List.map_filter (nested_sel cst obj) (map fst obj)"
proof -
  have "nested_sel cst obj a = None" if "is_array_index a" for a
    using that aggFieldsMapping_key_no_index[of a]
    by (auto simp: nested_sel_def split: option.splits)
  then have "List.map_filter (nested_sel cst obj) (own_keys obj)
             = List.map_filter (nested_sel cst obj) (map fst obj)"
    by (rule map_filter_own_keys)
  then show ?thesis
    by (simp add: nested_filter_def nested_filter_fold)
qed

lemma nested_clause_inj: "nested_clause f v = nested_clause f' v' \<longleftrightarrow> f = f' \<and> v = v'"
  by (auto simp: nested_clause_def)

lemma nested_filter_getFilters:
  assumes "getFilters fs = Inr obj"
  shows "distinct (nested_filter cst obj)"
    and "set (nested_filter cst obj) =
           {nested_clause f (JArr (flatten_values fs a)) | a f.
              (a, f) \<in> set aggFieldsMapping \<and> f \<in> set (nestedFilterFields cst)
              \<and> flatten_values fs a \<noteq> []}"
proof -
  have g: "good_obj obj" by (rule getFilters_Inr(1)[OF assms])
  have inj: "a = a'" if "nested_sel cst obj a = Some y" "nested_sel cst obj a' = Some y"
    for a a' y
    using that
    by (auto simp: nested_sel_def nested_clause_inj split: option.splits if_splits
        dest: aggFieldsMapping_inj)
  from g have "distinct (map fst obj)" by (simp add: good_obj_def)
  then show "distinct (nested_filter cst obj)"
    unfolding nested_filter_eq using inj by (rule distinct_map_filter)
  have dk: "distinct (map fst aggFieldsMapping)" by (simp add: aggFieldsMapping_def)
  have key: "a \<in> set (map fst obj) \<longleftrightarrow> flatten_values fs a \<noteq> []" for a
    using good_obj_key_iff[OF g, of a] getFilters_Inr(2)[OF assms, of a] by simp
  have val: "aggValues obj a = JArr (flatten_values fs a)" if "flatten_values fs a \<noteq> []" for a
    using that getFilters_map_of[OF assms, of a] by (simp add: aggValues_def)
  show "set (nested_filter cst obj) =
           {nested_clause f (JArr (flatten_values fs a)) | a f.
              (a, f) \<in> set aggFieldsMapping \<and> f \<in> set (nestedFilterFields cst)
              \<and> flatten_values fs a \<noteq> []}" (is "?L = ?R")
  proof (intro set_eqI iffI)
    fix y assume "y \<in> ?L"
    then obtain a where a: "a \<in> set (map fst obj)" "nested_sel cst obj a = Some y"
      by (auto simp: nested_filter_eq set_map_filter)
    from a(2) obtain f where f: "map_of aggFieldsMapping a = Some f"
      "f \<in> set (nestedFilterFields cst)" "y = nested_clause f (aggValues obj a)"
      by (auto simp: nested_sel_def split: option.splits if_splits)
    from a(1) key[of a] have ne: "flatten_values fs a \<noteq> []" by blast
    with f val[OF ne] map_of_SomeD[OF f(1)] show "y \<in> ?R" by auto
  next
    fix y assume "y \<in> ?R"
    then obtain a f where af: "(a, f) \<in> set aggFieldsMapping"
      "f \<in> set (nestedFilterFields cst)" "flatten_values fs a \<noteq> []"
      "y = nested_clause f (JArr (flatten_values fs a))" by auto
    from af(1) dk have "map_of aggFieldsMapping a = Some f" by simp
    with af val[OF af(3)] have "nested_sel cst obj a = Some y" by (simp add: nested_sel_def)
    moreover from af(3) key[of a] have "a \<in> set (map fst obj)" by blast
    ultimately show "y \<in> ?L" by (auto simp: nested_filter_eq set_map_filter)
  qed
qed

lemma additionalterms_fold:
  "fold (\<lambda>aggName accumulator.
             (case map_of aggFieldsMapping aggName of
                Some fieldName \<Rightarrow>
                  (if fieldName \<in> set (listFilterFields cst)
                   then accumulator
                        @ [JObj [(''terms'', JObj [(fieldName, aggValues obj aggName)])]]
                   else accumulator)
              | None \<Rightarrow> accumulator)) ks acc
   = acc @ List.map_filter (list_sel cst obj) ks"
  by (induction ks arbitrary: acc)
     (auto simp: list_sel_def split: option.splits)

lemma additionalterms_eq:
  "additionalterms cst obj = List.map_filter (list_sel cst obj) (map fst obj)"
proof -
  have "list_sel cst obj a = None" if "is_array_index a" for a
    using that aggFieldsMapping_key_no_index[of a]
    by (auto simp: list_sel_def split: option.splits)
  then have "List.map_filter (list_sel cst obj) (own_keys obj)
             = List.map_filter (list_sel cst obj) (map fst obj)"
    by (rule map_filter_own_keys)
  then show ?thesis
    by (simp add: additionalterms_def additionalterms_fold)
qed

lemma additionalterms_getFilters:
  assumes "getFilters fs = Inr obj"
  shows "set (additionalterms cst obj) =
           {JObj [(''terms'', JObj [(f, JArr (flatten_values fs a))])] | a f.
              (a, f) \<in> set aggFieldsMapping \<and> f \<in> set (listFilterFields cst)
              \<and> flatten_values fs a \<noteq> []}" (is "?L = ?R")
proof -
  have g: "good_obj obj" by (rule getFilters_Inr(1)[OF assms])
  have dk: "distinct (map fst aggFieldsMapping)" by (simp add: aggFieldsMapping_def)
  have key: "a \<in> set (map fst obj) \<longleftrightarrow> flatten_values fs a \<noteq> []" for a
    using good_obj_key_iff[OF g, of a] getFilters_Inr(2)[OF assms, of a] by simp
  have val: "aggValues obj a = JArr (flatten_values fs a)" if "flatten_values fs a \<noteq> []" for a
    using that getFilters_map_of[OF assms, of a] by (simp add: aggValues_def)
  show ?thesis
  proof (intro set_eqI iffI)
    fix y assume "y \<in> ?L"
    then obtain a where a: "a \<in> set (map fst obj)" "list_sel cst obj a = Some y"
      by (auto simp: additionalterms_eq set_map_filter)
    from a(2) obtain f where f: "map_of aggFieldsMapping a = Some f"
      "f \<in> set (listFilterFields cst)" "y = JObj [(''terms'', JObj [(f, aggValues obj a)])]"
      by (auto simp: list_sel_def split: option.splits if_splits)
    from a(1) key[of a] have ne: "flatten_values fs a \<noteq> []" by blast
    with f val[OF ne] map_of_SomeD[OF f(1)] show "y \<in> ?R" by auto
  next
    fix y assume "y \<in> ?R"
    then obtain a f where af: "(a, f) \<in> set aggFieldsMapping"
      "f \<in> set (listFilterFields cst)" "flatten_values fs a \<noteq> []"
      "y = JObj [(''terms'', JObj [(f, JArr (flatten_values fs a))])]" by auto
    from af(1) dk have "map_of aggFieldsMapping a = Some f" by simp
    with af val[OF af(3)] have "list_sel cst obj a = Some y" by (simp add: list_sel_def)
    moreover from af(3) key[of a] have "a \<in> set (map fst obj)" by blast
    ultimately show "y \<in> ?L" by (auto simp: additionalterms_eq set_map_filter)
  qed
qed

lemma post_filter_must_terms:
  assumes "serialize cst cfg st = Inr body"
  shows "\<exists>rest.
           get_path [''post_filter'', ''bool'', ''must''] body = Some (JArr (global_terms cfg @ rest))
         \<and> set rest =
             {JObj [(''terms'', JObj [(f, JArr (flatten_values (filters st) a))])] | a f.
                (a, f) \<in> set aggFieldsMapping \<and> f \<in> set (listFilterFields cst)
                \<and> flatten_values (filters st) a \<noteq> []}"
proof -
  from assms obtain terms fl where
    s: "selected_filters cst cfg (filters st) = Inr (terms, fl)" and
    p: "get ''post_filter'' body = Some (post_filter terms fl)"
    by (rule serialize_get_post_filter)
  from p have m: "get_path [''post_filter'', ''bool'', ''must''] body = Some (JArr terms)"
    by (simp add: post_filter_def)
  show ?thesis
  proof (cases "filters st = []")
    case True
    with s have "terms = global_terms cfg @ []" by (simp add: selected_filters_def)
    with m True show ?thesis by (simp add: flatten_values_Nil)
  next
    case False
    with s obtain obj where gf: "getFilters (filters st) = Inr obj"
      and t: "terms = global_terms cfg @ additionalterms cst obj"
      by (auto simp: selected_filters_def split: sum.splits)
    from additionalterms_getFilters[OF gf, of cst] m t show ?thesis by blast
  qed
qed

lemma distinct_set_singleton:
  assumes "distinct xs" "set xs = {x}"
  shows "xs = [x]"
proof -
  from distinct_card[OF assms(1)] assms(2) have "length xs = 1" by simp
  then obtain y where "xs = [y]" by (cases xs) auto
  with assms(2) show ?thesis by simp
qed

lemma example_nested_set_literal:
  "{JObj [(''nested'',
           JObj [(''path'', JStr f),
                 (''query'',
                  JObj [(''bool'',
                         JObj [(''must'',
                                JArr [JObj [(''terms'',
                                             JObj [(f @ ''.token'',
                                                    JArr (flatten_values (filters example_state) a))])]])])])])]
    | a f.
      (a, f) \<in> set aggFieldsMapping \<and> f \<in> set (nestedFilterFields example_constants)
      \<and> flatten_values (filters example_state) a \<noteq> []}
   = {JObj [(''nested'',
             JObj [(''path'', JStr ''kompasscomponent''),
                   (''query'',
                    JObj [(''bool'',
                           JObj [(''must'',
                                  JArr [JObj [(''terms'',
                                               JObj [(''kompasscomponent.token'',
                                                      JArr [JStr ''BEW''])])]])])])])]}"
  by (auto simp: aggFieldsMapping_def example_state_def example_constants_def flatten_values_def)

text \<open>
  Claim C5. In the returned body the \<^verbatim>\<open>post_filter\<close> is \<^verbatim>\<open>{bool: {must: ..., filter: cl}}\<close>,
  where \<^verbatim>\<open>cl\<close> holds exactly one clause
  \<^verbatim>\<open>{nested: {path: f, query: {bool: {must: [{terms: {f + ".token": values}}]}}}}\<close> for every
  facet with selected values whose field \<^verbatim>\<open>f\<close> is in \<^verbatim>\<open>nestedFilterFields\<close>, and nothing
  else; the key \<^verbatim>\<open>filter\<close> is absent when there is no such clause.
\<close>

theorem post_filter_nested_clauses:
  assumes "serialize cst cfg st = Inr body"
  shows "\<exists>must cl.
           get ''post_filter'' body =
             Some (JObj [(''bool'',
                          JObj ((''must'', JArr must)
                                # (if cl = [] then [] else [(''filter'', JArr cl)])))])
         \<and> distinct cl
         \<and> set cl =
             {JObj [(''nested'',
                     JObj [(''path'', JStr f),
                           (''query'',
                            JObj [(''bool'',
                                   JObj [(''must'',
                                          JArr [JObj [(''terms'',
                                                       JObj [(f @ ''.token'',
                                                              JArr (flatten_values (filters st) a))])]])])])])]
              | a f.
                (a, f) \<in> set aggFieldsMapping \<and> f \<in> set (nestedFilterFields cst)
                \<and> flatten_values (filters st) a \<noteq> []}"
proof -
  from assms obtain terms fl where
    s: "selected_filters cst cfg (filters st) = Inr (terms, fl)" and
    p: "get ''post_filter'' body = Some (post_filter terms fl)"
    by (rule serialize_get_post_filter)
  have pf: "post_filter terms fl =
          JObj [(''bool'',
                 JObj ((''must'', JArr terms)
                       # (if fl = [] then [] else [(''filter'', JArr fl)])))]"
    by (simp add: post_filter_def)
  have d: "distinct fl \<and> set fl =
             {nested_clause f (JArr (flatten_values (filters st) a)) | a f.
                (a, f) \<in> set aggFieldsMapping \<and> f \<in> set (nestedFilterFields cst)
                \<and> flatten_values (filters st) a \<noteq> []}"
  proof (cases "filters st = []")
    case True
    with s have "fl = []" by (simp add: selected_filters_def)
    with True show ?thesis by (simp add: flatten_values_Nil)
  next
    case False
    with s obtain obj where gf: "getFilters (filters st) = Inr obj"
      and fl: "fl = nested_filter cst obj"
      by (auto simp: selected_filters_def split: sum.splits)
    from nested_filter_getFilters[OF gf, of cst] fl show ?thesis by simp
  qed
  from p pf have "get ''post_filter'' body =
             Some (JObj [(''bool'',
                          JObj ((''must'', JArr terms)
                                # (if fl = [] then [] else [(''filter'', JArr fl)])))])"
    by simp
  with d show ?thesis unfolding nested_clause_def by blast
qed

theorem post_filter_nested_clauses_witness:
  "\<exists>body must.
     serialize example_constants example_config example_state = Inr body
     \<and> get ''post_filter'' body =
           Some (JObj [(''bool'',
                        JObj [(''must'', JArr must),
                              (''filter'',
                               JArr [JObj [(''nested'',
                                  JObj [(''path'', JStr ''kompasscomponent''),
                                        (''query'',
                                         JObj [(''bool'',
                                                JObj [(''must'',
                                                       JArr [JObj [(''terms'',
                                                          JObj [(''kompasscomponent.token'',
                                                                 JArr [JStr ''BEW''])])]])])])])]])])])"
proof -
  obtain body where h: "serialize example_constants example_config example_state = Inr body"
    using example_state_returns ..
  from post_filter_nested_clauses[OF h] obtain must cl where
    p: "get ''post_filter'' body =
             Some (JObj [(''bool'',
                          JObj ((''must'', JArr must)
                                # (if cl = [] then [] else [(''filter'', JArr cl)])))])"
    and d: "distinct cl"
    and c: "set cl = {JObj [(''nested'',
             JObj [(''path'', JStr ''kompasscomponent''),
                   (''query'',
                    JObj [(''bool'',
                           JObj [(''must'',
                                  JArr [JObj [(''terms'',
                                               JObj [(''kompasscomponent.token'',
                                                      JArr [JStr ''BEW''])])]])])])])]}"
    unfolding example_nested_set_literal by blast
  from distinct_set_singleton[OF d c] p h show ?thesis by simp
qed

text \<open>
  Claim C10. Every returned body has the key \<^verbatim>\<open>post_filter\<close>, whose \<^verbatim>\<open>bool.must\<close> array
  starts with the terms clause of the allowed content types and the terms clause of the
  allowed review states, and the key \<^verbatim>\<open>aggs\<close>.
\<close>

theorem post_filter_and_aggs_always:
  assumes "serialize cst cfg st = Inr body"
  shows "\<exists>rest more.
           get ''post_filter'' body =
             Some (JObj [(''bool'',
                          JObj ((''must'',
                                 JArr (JObj [(''terms'', JObj [(''portal_type'', JArr [JStr ''Manual''])])]
                                       # JObj [(''terms'', JObj [(''review_state'', allowed_review_states cfg)])]
                                       # rest))
                                # more))])
         \<and> has_key ''aggs'' body"
proof -
  from assms obtain terms fl where
    s: "selected_filters cst cfg (filters st) = Inr (terms, fl)" and
    p: "get ''post_filter'' body = Some (post_filter terms fl)" and
    a: "get ''aggs'' body = Some (JObj (nested_aggs cst fl (list_aggs cst [])))"
    by (rule serialize_get_post_filter)
  from s obtain rest where "terms = global_terms cfg @ rest"
    by (auto simp: selected_filters_def split: if_splits sum.splits)
  with p a show ?thesis
    by (simp add: post_filter_def global_terms_def allowed_content_types_def has_key_get)
qed

theorem post_filter_and_aggs_always_witness:
  "\<exists>body rest more.
     serialize example_constants example_config (example_state\<lparr>queryString := [], filters := []\<rparr>)
       = Inr body
     \<and> get ''post_filter'' body =
             Some (JObj [(''bool'',
                          JObj ((''must'',
                                 JArr (JObj [(''terms'', JObj [(''portal_type'', JArr [JStr ''Manual''])])]
                                       # JObj [(''terms'', JObj [(''review_state'', JArr [JStr ''published''])])]
                                       # rest))
                                # more))])
     \<and> has_key ''aggs'' body"
proof -
  obtain body where
    h: "serialize example_constants example_config
          (example_state\<lparr>queryString := [], filters := []\<rparr>) = Inr body"
    using serialize_returns_iff[of example_constants example_config
        "example_state\<lparr>queryString := [], filters := []\<rparr>"]
    by auto
  from post_filter_and_aggs_always[OF h] h show ?thesis
    by (simp add: allowed_review_states_def example_config_def)
qed

subsection \<open>The aggregations\<close>
































subsection \<open>Facet names inherited from the prototype\<close>

text \<open>
  A facet name without entry in \<^verbatim>\<open>aggFieldsMapping\<close> that is no inherited property is
  dropped: the post filter keeps its two global terms and gets no \<^verbatim>\<open>filter\<close> key.
\<close>

lemma unknown_facet_example:
  "returned_path [''post_filter'']
     (serialize example_constants example_config
        (example_state\<lparr>filters := [Chain ''unknown_agg'' (JStr ''x'') None]\<rparr>))
   = Some (JObj [(''bool'', JObj [(''must'', JArr (global_terms example_config))])])"
proof -
  let ?st = "example_state\<lparr>filters := [Chain ''unknown_agg'' (JStr ''x'') None]\<rparr>"
  have "\<exists>body. serialize example_constants example_config ?st = Inr body"
    unfolding serialize_returns_iff by (simp add: object_prototype_keys_def)
  then obtain body where h: "serialize example_constants example_config ?st = Inr body" ..
  have e: "{nested_clause f (JArr (flatten_values (filters ?st) a)) | a f.
      (a, f) \<in> set aggFieldsMapping \<and> f \<in> set (nestedFilterFields example_constants)
      \<and> flatten_values (filters ?st) a \<noteq> []} = {}"
    by (auto simp: aggFieldsMapping_def flatten_values_def)
  have e2: "{JObj [(''terms'', JObj [(f, JArr (flatten_values (filters ?st) a))])] | a f.
                (a, f) \<in> set aggFieldsMapping \<and> f \<in> set (listFilterFields example_constants)
                \<and> flatten_values (filters ?st) a \<noteq> []} = {}"
    by (auto simp: aggFieldsMapping_def flatten_values_def)
  from post_filter_must_terms[OF h] have
    m: "get_path [''post_filter'', ''bool'', ''must''] body = Some (JArr (global_terms example_config))"
    unfolding e2 by auto
  from serialize_get_post_filter[OF h] obtain terms fl where
    s: "selected_filters example_constants example_config (filters ?st) = Inr (terms, fl)" and
    p: "get ''post_filter'' body = Some (post_filter terms fl)" by blast
  from s obtain obj where gf: "getFilters (filters ?st) = Inr obj"
      and fl: "fl = nested_filter example_constants obj"
    by (auto simp: selected_filters_def split: sum.splits)
  have "set (nested_filter example_constants obj) = {}"
    using nested_filter_getFilters(2)[OF gf, of example_constants] unfolding e .
  with fl have "fl = []" by simp
  with p m have "get ''post_filter'' body
     = Some (JObj [(''bool'', JObj [(''must'', JArr (global_terms example_config))])])"
    by (simp add: post_filter_def)
  with h show ?thesis by simp
qed

text \<open>
  Claim C6. The claim says that \<^verbatim>\<open>getFilters\<close> returns the mapping from facet name to value
  list for every sequence of filter chains. For the chain \<^verbatim>\<open>["toString", "x"]\<close> the test
  \<^verbatim>\<open>aggName in aggValueObj\<close> holds for the empty object, the push onto the inherited
  function fails, and \<^verbatim>\<open>getFilters\<close> throws a TypeError instead of returning.
\<close>

theorem getFilters_inherited_name:
  "getFilters [Chain ''toString'' (JStr ''x'') None] = Inl TypeError"
  by (simp add: getFilters_def js_in_def object_prototype_keys_def)

text \<open>
  Claim C9. The claim says that \<^verbatim>\<open>serialize\<close> still returns a request body when a filter
  chain names a facet without entry in \<^verbatim>\<open>aggFieldsMapping\<close>. \<^verbatim>\<open>toString\<close> is such a
  name, and with the filters \<^verbatim>\<open>[["toString", "x"]]\<close> the TypeError of \<^verbatim>\<open>getFilters\<close>
  leaves \<^verbatim>\<open>serialize\<close>: no body is returned.
\<close>

theorem serialize_inherited_name:
  "serialize example_constants example_config
     (example_state\<lparr>filters := [Chain ''toString'' (JStr ''x'') None]\<rparr>) = Inl TypeError"
  by (simp add: serialize_def selected_filters_def getFilters_def js_in_def
      object_prototype_keys_def Let_def)

end
